theory Spec2Isabelle
  imports Main "HOL-Library.Word"
begin

unbundle bit_operations_syntax

section \<open>Python values\<close>

text \<open>
  The repository is one Python module, \<^verbatim>\<open>polkadot_verifier.py\<close>: a \<^verbatim>\<open>ctypes\<close> binding of
  a native library, with the two functions \<^verbatim>\<open>verify\<close> and \<^verbatim>\<open>get_version\<close>.

  A Python \<^verbatim>\<open>str\<close> is a sequence of code points (here natural numbers; Python's own are
  below \<open>0x110000\<close>), a \<^verbatim>\<open>bytes\<close> object a sequence of 8-bit values. A \<^verbatim>\<open>str\<close> may hold a
  lone surrogate, \<^verbatim>\<open>'\ud800'\<close>: that is the one kind of code point UTF-8 does not encode.
\<close>

type_synonym byte = "8 word"
type_synonym bytes = "byte list"
type_synonym str = "nat list"

text \<open>The exceptions the module's two functions can raise.\<close>

datatype py_error = UnicodeEncodeError | UnicodeDecodeError | AttributeError

text \<open>A \<^verbatim>\<open>str\<close> literal and a \<^verbatim>\<open>bytes\<close> literal of ASCII characters.\<close>

definition str_lit :: "string \<Rightarrow> str" where
  "str_lit cs = map of_char cs"

definition bytes_lit :: "string \<Rightarrow> bytes" where
  "bytes_lit cs = map of_char cs"

subsection \<open>\<^verbatim>\<open>str.encode()\<close>: UTF-8, errors='strict'\<close>

definition is_surrogate :: "nat \<Rightarrow> bool" where
  "is_surrogate c = (0xD800 \<le> c \<and> c \<le> 0xDFFF)"

text \<open>
  The bytes of one code point: a lead byte and continuation bytes, each a marker
  \<^verbatim>\<open>OR\<close> a group of bits of the code point (\<^verbatim>\<open>0xC0 | (c >> 6)\<close>, \<^verbatim>\<open>0x80 | (c & 0x3F)\<close>,
  and so on).
\<close>

definition continuation :: "nat \<Rightarrow> byte" where
  "continuation n = 0x80 OR (of_nat n AND 0x3F)"

definition utf8_char :: "nat \<Rightarrow> bytes" where
  "utf8_char c =
     (if c < 0x80 then [of_nat c]
      else if c < 0x800 then
        [0xC0 OR of_nat (c div 0x40), continuation c]
      else if c < 0x10000 then
        [0xE0 OR of_nat (c div 0x1000), continuation (c div 0x40), continuation c]
      else
        [0xF0 OR of_nat (c div 0x40000), continuation (c div 0x1000),
         continuation (c div 0x40), continuation c])"

text \<open>
  \<^verbatim>\<open>s.encode()\<close> raises \<^verbatim>\<open>UnicodeEncodeError\<close> at a surrogate and returns the
  concatenation of the code points' bytes otherwise.
\<close>

fun encode :: "str \<Rightarrow> py_error + bytes" where
  "encode [] = Inr []"
| "encode (c # cs) =
     (if is_surrogate c then Inl UnicodeEncodeError
      else case encode cs of
             Inl e \<Rightarrow> Inl e
           | Inr bs \<Rightarrow> Inr (utf8_char c @ bs))"

subsection \<open>Formatted string literals\<close>

text \<open>
  An f-string is a sequence of literal parts and replacement fields; its value is the
  concatenation of the literal texts and of the formatted field values, and
  \<^verbatim>\<open>format(s, '')\<close> of a \<^verbatim>\<open>str\<close> is the \<^verbatim>\<open>str\<close> itself.
\<close>

datatype fpart = Literal string | Field str

fun fpart_text :: "fpart \<Rightarrow> str" where
  "fpart_text (Literal cs) = str_lit cs"
| "fpart_text (Field s) = s"

definition fstring :: "fpart list \<Rightarrow> str" where
  "fstring ps = concat (map fpart_text ps)"

text \<open>Line 20: \<^verbatim>\<open>wrapped_message = f"<Bytes>{message}</Bytes>"\<close>.\<close>

definition wrapped_message :: "str \<Rightarrow> str" where
  "wrapped_message message =
     fstring [Literal ''<Bytes>'', Field message, Literal ''</Bytes>'']"

subsection \<open>\<^verbatim>\<open>bytes.decode()\<close>: UTF-8, errors='strict'\<close>

definition is_continuation :: "byte \<Rightarrow> bool" where
  "is_continuation b = (0x80 \<le> b \<and> b \<le> 0xBF)"

definition payload :: "byte \<Rightarrow> nat" where
  "payload b = unat (b AND 0x3F)"

text \<open>
  The strict decoder: the shortest form only (no lead byte \<open>0xC0\<close>, \<open>0xC1\<close>; the second
  byte after \<open>0xE0\<close> and \<open>0xF0\<close> bounded below), no surrogate (the second byte after
  \<open>0xED\<close> bounded above), nothing beyond \<open>0x10FFFF\<close> (lead byte at most \<open>0xF4\<close>, its second
  byte bounded above). Any other byte sequence raises \<^verbatim>\<open>UnicodeDecodeError\<close>.
\<close>

fun decode :: "bytes \<Rightarrow> py_error + str" where
  "decode [] = Inr []"
| "decode (b # bs) =
     (if b < 0x80 then
        (case decode bs of Inl e \<Rightarrow> Inl e | Inr s \<Rightarrow> Inr (unat b # s))
      else if 0xC2 \<le> b \<and> b \<le> 0xDF then
        (case bs of
           b1 # r \<Rightarrow>
             if is_continuation b1 then
               (case decode r of
                  Inl e \<Rightarrow> Inl e
                | Inr s \<Rightarrow> Inr ((unat (b AND 0x1F) * 0x40 + payload b1) # s))
             else Inl UnicodeDecodeError
         | _ \<Rightarrow> Inl UnicodeDecodeError)
      else if 0xE0 \<le> b \<and> b \<le> 0xEF then
        (case bs of
           b1 # b2 # r \<Rightarrow>
             if is_continuation b1 \<and> is_continuation b2
                \<and> (b = 0xE0 \<longrightarrow> 0xA0 \<le> b1) \<and> (b = 0xED \<longrightarrow> b1 \<le> 0x9F) then
               (case decode r of
                  Inl e \<Rightarrow> Inl e
                | Inr s \<Rightarrow>
                    Inr ((unat (b AND 0x0F) * 0x1000 + payload b1 * 0x40 + payload b2) # s))
             else Inl UnicodeDecodeError
         | _ \<Rightarrow> Inl UnicodeDecodeError)
      else if 0xF0 \<le> b \<and> b \<le> 0xF4 then
        (case bs of
           b1 # b2 # b3 # r \<Rightarrow>
             if is_continuation b1 \<and> is_continuation b2 \<and> is_continuation b3
                \<and> (b = 0xF0 \<longrightarrow> 0x90 \<le> b1) \<and> (b = 0xF4 \<longrightarrow> b1 \<le> 0x8F) then
               (case decode r of
                  Inl e \<Rightarrow> Inl e
                | Inr s \<Rightarrow>
                    Inr ((unat (b AND 0x07) * 0x40000 + payload b1 * 0x1000
                          + payload b2 * 0x40 + payload b3) # s))
             else Inl UnicodeDecodeError
         | _ \<Rightarrow> Inl UnicodeDecodeError)
      else Inl UnicodeDecodeError)"

section \<open>The foreign library\<close>

text \<open>
  Lines 5 to 12 load \<^verbatim>\<open>libpolkadot_sig_verifier.so\<close> and declare its two entry points:
  \<^verbatim>\<open>verify_polkadot_signature\<close> takes three \<^verbatim>\<open>c_char_p\<close> and returns a \<^verbatim>\<open>c_uint8\<close>,
  \<^verbatim>\<open>get_version\<close> takes nothing and returns a \<^verbatim>\<open>c_char_p\<close>.

  A \<^verbatim>\<open>bytes\<close> object passed as \<^verbatim>\<open>c_char_p\<close> is passed as the address of its buffer, and the
  callee reads a C string there: the bytes before the first null byte. A \<^verbatim>\<open>c_char_p\<close>
  result is read the same way.
\<close>

definition c_char_p :: "bytes \<Rightarrow> bytes" where
  "c_char_p bs = takeWhile (\<lambda>b. b \<noteq> 0) bs"

text \<open>
  The library itself is not among the sources, so it is a parameter of the model: two
  functions of the declared types. What the library does beyond returning a value is
  unknown, so each function also takes and returns the library's own state \<open>'n\<close>, and
  its result is \<open>None\<close> when the call does not come back (the native code aborts the
  process or runs forever). \<^verbatim>\<open>get_version\<close> returns a pointer: \<open>None\<close> for \<^verbatim>\<open>NULL\<close>, and
  otherwise the bytes at that address.
\<close>

record 'n cdll =
  c_verify_polkadot_signature :: "bytes \<Rightarrow> bytes \<Rightarrow> bytes \<Rightarrow> 'n \<Rightarrow> (byte \<times> 'n) option"
  c_get_version :: "'n \<Rightarrow> (bytes option \<times> 'n) option"

section \<open>The module\<close>

text \<open>
  The state a call can read or change: the module's two globals (lines 5 and 6) and the
  state of the loaded library.
\<close>

record 'n module =
  lib_path :: string
  lib :: "'n cdll"
  native :: 'n

text \<open>
  What a call of a Python function does: it returns a value, raises an exception, or
  never comes back; in the first two cases the state afterwards is part of the outcome.
\<close>

datatype ('a, 's) outcome = Returns 'a 's | Raises py_error 's | NoReturn

text \<open>
  Lines 22 to 24: the three arguments of the foreign call, evaluated from left to right,
  as the native function receives them.
\<close>

definition verify_args :: "str \<Rightarrow> str \<Rightarrow> str \<Rightarrow> py_error + bytes \<times> bytes \<times> bytes" where
  "verify_args address signature wrapped =
     (case encode address of
        Inl e \<Rightarrow> Inl e
      | Inr a \<Rightarrow>
          (case encode signature of
             Inl e \<Rightarrow> Inl e
           | Inr s \<Rightarrow>
               (case encode wrapped of
                  Inl e \<Rightarrow> Inl e
                | Inr m \<Rightarrow> Inr (c_char_p a, c_char_p s, c_char_p m))))"

text \<open>Lines 15 to 26: \<^verbatim>\<open>verify\<close>.\<close>

definition verify :: "str \<Rightarrow> str \<Rightarrow> str \<Rightarrow> 'n module \<Rightarrow> (bool, 'n module) outcome" where
  "verify address signature message g =
     (case verify_args address signature (wrapped_message message) of
        Inl e \<Rightarrow> Raises e g
      | Inr (a, s, m) \<Rightarrow>
          (case c_verify_polkadot_signature (lib g) a s m (native g) of
             None \<Rightarrow> NoReturn
           | Some (result, n') \<Rightarrow> Returns (result = 1) (g\<lparr>native := n'\<rparr>)))"

text \<open>
  Lines 29 to 31: \<^verbatim>\<open>get_version\<close>. A \<^verbatim>\<open>NULL\<close> result reaches Python as \<^verbatim>\<open>None\<close>, which has
  no \<^verbatim>\<open>decode\<close>.
\<close>

definition get_version :: "'n module \<Rightarrow> (str, 'n module) outcome" where
  "get_version g =
     (case c_get_version (lib g) (native g) of
        None \<Rightarrow> NoReturn
      | Some (p, n') \<Rightarrow>
          (case p of
             None \<Rightarrow> Raises AttributeError (g\<lparr>native := n'\<rparr>)
           | Some buf \<Rightarrow>
               (case decode (c_char_p buf) of
                  Inl e \<Rightarrow> Raises e (g\<lparr>native := n'\<rparr>)
                | Inr v \<Rightarrow> Returns v (g\<lparr>native := n'\<rparr>))))"

section \<open>The native library as the specification describes it\<close>

text \<open>
  Modelled from the spec: the native entry point \<^verbatim>\<open>verify_polkadot_signature\<close> is not
  among the sources. The specification (sections 4.5, 6 and 7) describes it as running
  the stages in order (decode the address, decode the signature, verify), where every
  stage either succeeds or fails with one of six error kinds, and as returning the
  \<^verbatim>\<open>uint8\<close> 1 for a valid signature and 0 for an invalid one or any error. The stages
  themselves (base58, blake2b, Ristretto255 arithmetic) are the library's collaborators
  and stay parameters. The message arrives wrapped: the envelope is put on by line 20 of
  the Python module.
\<close>

datatype stage_error =
  InvalidEncoding | InvalidLength | ChecksumMismatch | InvalidPoint | InvalidScalar
  | EquationMismatch

record stages =
  decode_ss58 :: "bytes \<Rightarrow> stage_error + bytes \<times> nat"
  decode_signature :: "bytes \<Rightarrow> stage_error + bytes"
  sr25519_verify :: "bytes \<Rightarrow> bytes \<Rightarrow> bytes \<Rightarrow> stage_error + bool"

text \<open>
  Modelled from the spec: the orchestration inside the missing native entry point
  (section 4.5), the first failing stage deciding the result.
\<close>

definition spec_pipeline :: "stages \<Rightarrow> bytes \<Rightarrow> bytes \<Rightarrow> bytes \<Rightarrow> stage_error + bool" where
  "spec_pipeline st address signature message =
     (case decode_ss58 st address of
        Inl e \<Rightarrow> Inl e
      | Inr (pubkey, prefix) \<Rightarrow>
          (case decode_signature st signature of
             Inl e \<Rightarrow> Inl e
           | Inr sig \<Rightarrow> sr25519_verify st pubkey sig message))"

text \<open>
  Modelled from the spec: the value the missing native entry point returns (section 6):
  ``returns 1 for valid, 0 for invalid/any error''.
\<close>

definition spec_verify_polkadot_signature :: "stages \<Rightarrow> bytes \<Rightarrow> bytes \<Rightarrow> bytes \<Rightarrow> byte" where
  "spec_verify_polkadot_signature st address signature message =
     (case spec_pipeline st address signature message of
        Inl e \<Rightarrow> 0
      | Inr valid \<Rightarrow> (if valid then 1 else 0))"

text \<open>
  Modelled from the spec: the native \<^verbatim>\<open>get_version\<close> is not among the sources either.
  The specification (sections 4.5, 6 and 9) describes it as returning a pointer to a
  process-wide static string that holds a semantic version, with no inputs and no
  failure modes. The string is the parameter \<open>version\<close>, stored with its terminating
  null byte; neither entry point keeps state. \<open>spec_cdll\<close> is the missing library with
  these two entry points.
\<close>

definition spec_cdll :: "stages \<Rightarrow> bytes \<Rightarrow> 'n cdll" where
  "spec_cdll st version =
     \<lparr>c_verify_polkadot_signature =
        (\<lambda>a s m n. Some (spec_verify_polkadot_signature st a s m, n)),
      c_get_version = (\<lambda>n. Some (Some (version @ [0]), n))\<rparr>"

text \<open>
  Modelled from the spec: what the missing \<^verbatim>\<open>get_version\<close> returns is a ``static
  semantic-version string''. The format those words name (semver.org 2.0.0) is three
  numeric identifiers separated by dots, then optionally a hyphen and dot-separated
  pre-release identifiers, then optionally a plus sign and dot-separated build
  identifiers. Identifiers are non-empty and made of ASCII letters, digits and hyphens; a
  numeric identifier has no leading zero. The definitions up to \<open>is_semver\<close> spell this
  out on code points (48 to 57 the digits, 45 the hyphen, 46 the dot, 43 the plus sign).
\<close>

definition is_digit :: "nat \<Rightarrow> bool" where
  "is_digit c = (48 \<le> c \<and> c \<le> 57)"

definition is_ident_char :: "nat \<Rightarrow> bool" where
  "is_ident_char c = (is_digit c \<or> (65 \<le> c \<and> c \<le> 90) \<or> (97 \<le> c \<and> c \<le> 122) \<or> c = 45)"

definition numeric_identifier :: "nat list \<Rightarrow> bool" where
  "numeric_identifier ds = (ds \<noteq> [] \<and> list_all is_digit ds \<and> (ds = [48] \<or> hd ds \<noteq> 48))"

definition prerelease_identifier :: "nat list \<Rightarrow> bool" where
  "prerelease_identifier i =
     (i \<noteq> [] \<and> list_all is_ident_char i \<and> (if list_all is_digit i then numeric_identifier i else True))"

definition build_identifier :: "nat list \<Rightarrow> bool" where
  "build_identifier i = (i \<noteq> [] \<and> list_all is_ident_char i)"

fun split_on :: "nat \<Rightarrow> nat list \<Rightarrow> nat list list" where
  "split_on d [] = [[]]"
| "split_on d (c # cs) =
     (if c = d then [] # split_on d cs
      else case split_on d cs of
             [] \<Rightarrow> [[c]]
           | p # ps \<Rightarrow> (c # p) # ps)"

text \<open>
  Modelled from the spec: the recogniser of semantic versions, the property of the string
  that the missing \<^verbatim>\<open>get_version\<close> returns.
\<close>

definition is_semver :: "nat list \<Rightarrow> bool" where
  "is_semver v =
     (let core_pre = takeWhile (\<lambda>c. c \<noteq> 43) v;
          build = dropWhile (\<lambda>c. c \<noteq> 43) v;
          core = takeWhile (\<lambda>c. c \<noteq> 45) core_pre;
          pre = dropWhile (\<lambda>c. c \<noteq> 45) core_pre
      in (case split_on 46 core of
            [major, minor, patch] \<Rightarrow>
              numeric_identifier major \<and> numeric_identifier minor \<and> numeric_identifier patch
          | _ \<Rightarrow> False)
         \<and> (if pre = [] then True else list_all prerelease_identifier (split_on 46 (tl pre)))
         \<and> (if build = [] then True else list_all build_identifier (split_on 46 (tl build))))"

text \<open>The characters a semantic version is made of: identifier characters, dot and plus.\<close>

definition semver_char :: "nat \<Rightarrow> bool" where
  "semver_char c = (is_ident_char c \<or> c = 46 \<or> c = 43)"

section \<open>Properties of the library that the specification states\<close>

text \<open>
  Modelled from the spec: the missing library is described in section 5 as ``single-call,
  synchronous, stateless, and side-effect-free''. For a library that is a parameter this
  is a hypothesis: a call of the verification entry point that returns leaves the
  library's state as it was.
\<close>

definition stateless :: "'n cdll \<Rightarrow> bool" where
  "stateless L =
     (\<forall>a s m n. case c_verify_polkadot_signature L a s m n of
                  None \<Rightarrow> True
                | Some (r, n') \<Rightarrow> n' = n)"

text \<open>
  Modelled from the spec: the missing library is described in section 4.5 as never
  crashing, panicking or hanging. For a library that is a parameter this is a hypothesis:
  every call of the verification entry point returns.
\<close>

definition comes_back :: "'n cdll \<Rightarrow> bool" where
  "comes_back L = (\<forall>a s m n. c_verify_polkadot_signature L a s m n \<noteq> None)"

text \<open>A \<^verbatim>\<open>str\<close> that \<^verbatim>\<open>encode\<close> accepts: one with no surrogate code point.\<close>

definition encodable :: "str \<Rightarrow> bool" where
  "encodable s = list_all (\<lambda>c. \<not> is_surrogate c) s"

section \<open>Stand-ins for concrete runs\<close>

text \<open>
  The theorems below hold for every library. To run them on concrete inputs some library
  is needed; these are small stand-ins, not the cryptography: a library whose verification
  entry point returns a fixed byte, and stages under which a signature counts as valid
  when it is the public key followed by the message.
\<close>

definition fixed_cdll :: "byte \<Rightarrow> unit cdll" where
  "fixed_cdll r =
     \<lparr>c_verify_polkadot_signature = (\<lambda>a s m n. Some (r, n)),
      c_get_version = (\<lambda>n. Some (None, n))\<rparr>"

definition toy_stages :: stages where
  "toy_stages =
     \<lparr>decode_ss58 = (\<lambda>a. if a = [] then Inl InvalidLength else Inr (a, 42)),
      decode_signature = (\<lambda>s. if s = [] then Inl InvalidEncoding else Inr s),
      sr25519_verify = (\<lambda>pubkey sig m. Inr (sig = pubkey @ m))\<rparr>"

definition loaded :: "unit cdll \<Rightarrow> unit module" where
  "loaded L =
     \<lparr>lib_path = ''target/release/libpolkadot_sig_verifier.so'', lib = L, native = ()\<rparr>"

section \<open>Theorems\<close>

subsection \<open>Encoding and wrapping\<close>

lemma encode_append:
  "encode (xs @ ys) =
     (case encode xs of
        Inl e \<Rightarrow> Inl e
      | Inr a \<Rightarrow> (case encode ys of Inl e \<Rightarrow> Inl e | Inr b \<Rightarrow> Inr (a @ b)))"
  by (induction xs) (auto split: sum.splits)

lemma encode_open_tag: "encode (str_lit ''<Bytes>'') = Inr (bytes_lit ''<Bytes>'')"
  by (simp add: str_lit_def bytes_lit_def is_surrogate_def utf8_char_def)

lemma encode_close_tag: "encode (str_lit ''</Bytes>'') = Inr (bytes_lit ''</Bytes>'')"
  by (simp add: str_lit_def bytes_lit_def is_surrogate_def utf8_char_def)

lemma wrapped_message_append:
  "wrapped_message m = str_lit ''<Bytes>'' @ m @ str_lit ''</Bytes>''"
  by (simp add: wrapped_message_def fstring_def)

lemma encode_wrapped_message:
  "encode (wrapped_message m) =
     (case encode m of
        Inl e \<Rightarrow> Inl e
      | Inr bs \<Rightarrow> Inr (bytes_lit ''<Bytes>'' @ bs @ bytes_lit ''</Bytes>''))"
  by (simp add: wrapped_message_append encode_append encode_open_tag encode_close_tag
      split: sum.splits)

lemma encode_encodable: "(\<exists>bs. encode s = Inr bs) \<longleftrightarrow> encodable s"
  by (induction s) (auto simp: encodable_def split: sum.splits)

lemma encode_not_encodable: "\<not> encodable s \<Longrightarrow> encode s = Inl UnicodeEncodeError"
  by (induction s) (auto simp: encodable_def split: sum.splits)

text \<open>
  Claim C4. Wrapping is a total function with no failure mode: line 20 builds the
  wrapped message from any message, and its value is the opening tag, the message and the
  closing tag, in this order. Encoding it fails only where encoding the message itself
  fails, and otherwise gives the opening tag, the bytes of the message and the closing
  tag. For the message \<^verbatim>\<open>hello\<close> it is \<^verbatim>\<open><Bytes>hello</Bytes>\<close>, as a \<^verbatim>\<open>str\<close> and, once
  encoded, as \<^verbatim>\<open>bytes\<close>.
\<close>

theorem wrap_is_concatenation:
  "wrapped_message m = str_lit ''<Bytes>'' @ m @ str_lit ''</Bytes>''
   \<and> encode (wrapped_message m) =
        (case encode m of
           Inl e \<Rightarrow> Inl e
         | Inr bs \<Rightarrow> Inr (bytes_lit ''<Bytes>'' @ bs @ bytes_lit ''</Bytes>''))
   \<and> wrapped_message (str_lit ''hello'') = str_lit ''<Bytes>hello</Bytes>''
   \<and> encode (wrapped_message (str_lit ''hello'')) = Inr (bytes_lit ''<Bytes>hello</Bytes>'')"
proof -
  have hello: "encode (str_lit ''hello'') = Inr (bytes_lit ''hello'')"
    by (simp add: str_lit_def bytes_lit_def is_surrogate_def utf8_char_def)
  have "encode (wrapped_message (str_lit ''hello'')) = Inr (bytes_lit ''<Bytes>hello</Bytes>'')"
    by (simp add: encode_wrapped_message hello) (simp add: bytes_lit_def)
  moreover have "wrapped_message (str_lit ''hello'') = str_lit ''<Bytes>hello</Bytes>''"
    by (simp add: wrapped_message_append) (simp add: str_lit_def)
  moreover note wrapped_message_append [of m] encode_wrapped_message [of m]
  ultimately show ?thesis
    by blast
qed

text \<open>
  Claim C9. For every message with no surrogate code point, wrapping the \<^verbatim>\<open>str\<close> and then
  encoding gives the same bytes as encoding the message and wrapping the bytes:
  \<^verbatim>\<open>("<Bytes>" + message + "</Bytes>").encode() == b"<Bytes>" + message.encode() + b"</Bytes>"\<close>,
  and the f-string of line 20 encodes to these bytes too.
\<close>

theorem encode_commutes_with_wrap:
  assumes "encodable message"
  shows "\<exists>bs. encode message = Inr bs
           \<and> encode (str_lit ''<Bytes>'' @ message @ str_lit ''</Bytes>'')
               = Inr (bytes_lit ''<Bytes>'' @ bs @ bytes_lit ''</Bytes>'')
           \<and> encode (wrapped_message message)
               = Inr (bytes_lit ''<Bytes>'' @ bs @ bytes_lit ''</Bytes>'')"
proof -
  from assms obtain bs where bs: "encode message = Inr bs"
    using encode_encodable by blast
  then have "encode (wrapped_message message)
               = Inr (bytes_lit ''<Bytes>'' @ bs @ bytes_lit ''</Bytes>'')"
    by (simp add: encode_wrapped_message)
  with bs show ?thesis
    by (auto simp: wrapped_message_append)
qed

text \<open>The message \<^verbatim>\<open>h\<close>, e acute, the euro sign and an emoji: one to four bytes each.\<close>

theorem encode_commutes_with_wrap_witness:
  "encodable [0x68, 0xE9, 0x20AC, 0x1F600]
   \<and> (\<exists>bs. encode [0x68, 0xE9, 0x20AC, 0x1F600] = Inr bs
           \<and> encode (str_lit ''<Bytes>'' @ [0x68, 0xE9, 0x20AC, 0x1F600] @ str_lit ''</Bytes>'')
               = Inr (bytes_lit ''<Bytes>'' @ bs @ bytes_lit ''</Bytes>'')
           \<and> encode (wrapped_message [0x68, 0xE9, 0x20AC, 0x1F600])
               = Inr (bytes_lit ''<Bytes>'' @ bs @ bytes_lit ''</Bytes>''))"
proof -
  have h: "encodable [0x68, 0xE9, 0x20AC, 0x1F600]"
    by (simp add: encodable_def is_surrogate_def)
  show ?thesis
    using h encode_commutes_with_wrap [OF h] by simp
qed

subsection \<open>C strings\<close>

lemma continuation_nonzero: "continuation n \<noteq> 0"
  by (simp add: continuation_def or_eq_0_iff)

lemma utf8_char_null: "0 \<in> set (utf8_char c) \<longleftrightarrow> c = 0"
  by (auto simp: utf8_char_def continuation_nonzero or_eq_0_iff word_of_nat_eq_0_iff
      dest: dvd_imp_le)

lemma encode_null: "encode s = Inr bs \<Longrightarrow> 0 \<in> set bs \<longleftrightarrow> 0 \<in> set s"
  by (induction s arbitrary: bs) (auto simp: utf8_char_null split: if_splits sum.splits)

lemma c_char_p_no_null: "0 \<notin> set (c_char_p bs)"
  by (auto simp: c_char_p_def dest: set_takeWhileD)

lemma c_char_p_id: "0 \<notin> set bs \<Longrightarrow> c_char_p bs = bs"
  by (auto simp: c_char_p_def takeWhile_eq_all_conv)

lemma c_char_p_split: "0 \<in> set bs \<Longrightarrow> \<exists>rest. bs = c_char_p bs @ 0 # rest"
proof -
  assume "0 \<in> set bs"
  then have "dropWhile (\<lambda>b. b \<noteq> 0) bs \<noteq> []"
    by (simp add: dropWhile_eq_Nil_conv) 
  then obtain x rest where d: "dropWhile (\<lambda>b. b \<noteq> 0) bs = x # rest"
    by (cases "dropWhile (\<lambda>b. b \<noteq> 0) bs") auto
  then have "x = 0"
    using hd_dropWhile [of "\<lambda>b. b \<noteq> 0" bs] by auto
  with d have "bs = c_char_p bs @ 0 # rest"
    using takeWhile_dropWhile_id [of "\<lambda>b. b \<noteq> 0" bs] by (simp add: c_char_p_def)
  then show ?thesis ..
qed

lemma c_char_p_append:
  "c_char_p (xs @ ys) = (if 0 \<in> set xs then c_char_p xs else xs @ c_char_p ys)"
  by (induction xs) (auto simp: c_char_p_def)

lemma open_tag_no_null: "0 \<notin> set (bytes_lit ''<Bytes>'')"
  by (simp add: bytes_lit_def)

lemma close_tag_no_null: "0 \<notin> set (bytes_lit ''</Bytes>'')"
  by (simp add: bytes_lit_def)

lemma verify_args_Inr:
  "verify_args address signature wrapped = Inr (a, s, m) \<longleftrightarrow>
     (\<exists>ea es em. encode address = Inr ea \<and> encode signature = Inr es \<and> encode wrapped = Inr em
        \<and> a = c_char_p ea \<and> s = c_char_p es \<and> m = c_char_p em)"
  by (auto simp: verify_args_def split: sum.splits)

lemma verify_args_encodable:
  "(\<exists>args. verify_args address signature wrapped = Inr args) \<longleftrightarrow>
     encodable address \<and> encodable signature \<and> encodable wrapped"
  by (auto simp: verify_args_def encode_encodable [symmetric] split: sum.splits)

lemma encodable_wrapped_message: "encodable (wrapped_message m) \<longleftrightarrow> encodable m"
  by (simp add: wrapped_message_def fstring_def encodable_def str_lit_def is_surrogate_def)

lemma encode_raises: "encode s = Inl e \<Longrightarrow> e = UnicodeEncodeError"
  by (induction s) (auto split: if_splits sum.splits)

lemma verify_args_raises:
  "verify_args address signature wrapped = Inl e \<Longrightarrow> e = UnicodeEncodeError"
  by (auto simp: verify_args_def split: sum.splits dest: encode_raises)

lemma verify_called:
  "verify_args address signature (wrapped_message message) = Inr (a, s, m) \<Longrightarrow>
   verify address signature message g =
     (case c_verify_polkadot_signature (lib g) a s m (native g) of
        None \<Rightarrow> NoReturn
      | Some (result, n') \<Rightarrow> Returns (result = 1) (g\<lparr>native := n'\<rparr>))"
  by (simp add: verify_def)

lemma verify_raises:
  "verify_args address signature (wrapped_message message) = Inl e \<Longrightarrow>
   verify address signature message g = Raises e g"
  by (simp add: verify_def)

subsection \<open>The outcome of \<^verbatim>\<open>verify\<close>\<close>

lemma verify_outcome:
  "verify address signature message g =
     (if encodable address \<and> encodable signature \<and> encodable message then
        (case verify_args address signature (wrapped_message message) of
           Inl e \<Rightarrow> Raises e g
         | Inr (a, s, m) \<Rightarrow>
             (case c_verify_polkadot_signature (lib g) a s m (native g) of
                None \<Rightarrow> NoReturn
              | Some (result, n') \<Rightarrow> Returns (result = 1) (g\<lparr>native := n'\<rparr>)))
      else Raises UnicodeEncodeError g)"
proof (cases "encodable address \<and> encodable signature \<and> encodable message")
  case True
  then show ?thesis by (simp add: verify_def)
next
  case False
  then have "\<nexists>args. verify_args address signature (wrapped_message message) = Inr args"
    by (metis encodable_wrapped_message verify_args_encodable)
  then obtain e where e: "verify_args address signature (wrapped_message message) = Inl e"
    by (cases "verify_args address signature (wrapped_message message)") auto
  then have "e = UnicodeEncodeError"
    by (rule verify_args_raises)
  with e False show ?thesis
    by (simp add: verify_def)
qed

lemma verify_state:
  assumes "stateless (lib g)"
    and "verify address signature message g = Returns b g' \<or> verify address signature message g = Raises e g'"
  shows "g' = g"
proof (cases "verify_args address signature (wrapped_message message)")
  case (Inl e')
  with assms(2) show ?thesis
    by (auto simp: verify_def)
next
  case (Inr args)
  obtain a s m where args: "args = (a, s, m)"
    by (cases args) auto
  show ?thesis
  proof (cases "c_verify_polkadot_signature (lib g) a s m (native g)")
    case None
    with Inr args assms(2) show ?thesis
      by (simp add: verify_def)
  next
    case (Some rn)
    obtain r n' where rn: "rn = (r, n')"
      by (cases rn) auto
    from assms(1) Some rn have "n' = native g"
      unfolding stateless_def by (metis (mono_tags, lifting) case_prod_conv option.simps(5))
    with Inr args Some rn assms(2) show ?thesis
      by (auto simp: verify_def)
  qed
qed

lemma wrapped_bytes_neq:
  "bytes_lit ''<Bytes>'' @ bm @ bytes_lit ''</Bytes>'' \<noteq> bm"
  "bytes_lit ''<Bytes>'' @ bm @ bytes_lit ''</Bytes>''
     \<noteq> bytes_lit ''<Bytes>'' @ (bytes_lit ''<Bytes>'' @ bm @ bytes_lit ''</Bytes>'') @ bytes_lit ''</Bytes>''"
proof -
  have "length (bytes_lit ''<Bytes>'' @ bm @ bytes_lit ''</Bytes>'') \<noteq> length bm"
    by (simp add: bytes_lit_def)
  then show "bytes_lit ''<Bytes>'' @ bm @ bytes_lit ''</Bytes>'' \<noteq> bm"
    by metis
  have "length (bytes_lit ''<Bytes>'' @ bm @ bytes_lit ''</Bytes>'')
          \<noteq> length (bytes_lit ''<Bytes>'' @ (bytes_lit ''<Bytes>'' @ bm @ bytes_lit ''</Bytes>'') @ bytes_lit ''</Bytes>'')"
    by (simp add: bytes_lit_def)
  then show "bytes_lit ''<Bytes>'' @ bm @ bytes_lit ''</Bytes>''
     \<noteq> bytes_lit ''<Bytes>'' @ (bytes_lit ''<Bytes>'' @ bm @ bytes_lit ''</Bytes>'') @ bytes_lit ''</Bytes>''"
    by metis
qed

lemma wrapped_arg:
  assumes "verify_args address signature (wrapped_message message) = Inr (a, s, m)"
  shows "\<exists>bm. encode message = Inr bm
           \<and> m = c_char_p (bytes_lit ''<Bytes>'' @ bm @ bytes_lit ''</Bytes>'')"
  using assms by (auto simp: verify_args_Inr encode_wrapped_message split: sum.splits)

lemma received_prefix:
  "0 \<notin> set (c_char_p bs)
   \<and> (if 0 \<in> set bs then \<exists>rest. bs = c_char_p bs @ 0 # rest else c_char_p bs = bs)"
  using c_char_p_no_null [of bs] c_char_p_split [of bs] c_char_p_id [of bs] by simp

text \<open>
  Claim C1, as the code has it. The claim says that \<^verbatim>\<open>verify\<close> returns a boolean for every
  triple of strings. It does so for every triple without a surrogate code point (empty,
  long, not base58, not hexadecimal: nothing else is looked at), as long as the native
  call comes back; when one of the three strings holds a surrogate, \<^verbatim>\<open>encode\<close> raises
  \<^verbatim>\<open>UnicodeEncodeError\<close>, nothing in \<^verbatim>\<open>verify\<close> catches it, and the native function is not
  called.
\<close>

theorem verify_returns_bool:
  assumes "comes_back (lib g)"
  shows "(encodable address \<and> encodable signature \<and> encodable message
            \<longrightarrow> (\<exists>b g'. verify address signature message g = Returns b g'))
         \<and> (\<not> (encodable address \<and> encodable signature \<and> encodable message)
            \<longrightarrow> verify address signature message g = Raises UnicodeEncodeError g)"
proof (intro conjI impI)
  assume enc: "encodable address \<and> encodable signature \<and> encodable message"
  then obtain args where "verify_args address signature (wrapped_message message) = Inr args"
    using verify_args_encodable [of address signature "wrapped_message message"]
    by (auto simp: encodable_wrapped_message)
  moreover obtain a s m where "args = (a, s, m)"
    by (cases args) auto
  moreover from assms obtain r n' where
    "c_verify_polkadot_signature (lib g) a s m (native g) = Some (r, n')"
    unfolding comes_back_def by (metis option.exhaust surj_pair)
  ultimately show "\<exists>b g'. verify address signature message g = Returns b g'"
    by (simp add: verify_def)
next
  assume "\<not> (encodable address \<and> encodable signature \<and> encodable message)"
  then show "verify address signature message g = Raises UnicodeEncodeError g"
    by (subst verify_outcome) (simp only: if_False)
qed

text \<open>An address that is not base58, a signature that is not hexadecimal, an empty message.\<close>

theorem verify_returns_bool_witness:
  "comes_back (lib (loaded (spec_cdll toy_stages (bytes_lit ''0.1.0''))))
   \<and> encodable [] \<and> encodable (str_lit ''not base58: 0OIl'') \<and> encodable (str_lit ''not hex'')
   \<and> (\<exists>b g'. verify (str_lit ''not base58: 0OIl'') (str_lit ''not hex'') []
                (loaded (spec_cdll toy_stages (bytes_lit ''0.1.0''))) = Returns b g')"
proof -
  have cb: "comes_back (lib (loaded (spec_cdll toy_stages (bytes_lit ''0.1.0''))))"
    by (simp add: comes_back_def loaded_def spec_cdll_def)
  have enc: "encodable [] \<and> encodable (str_lit ''not base58: 0OIl'') \<and> encodable (str_lit ''not hex'')"
    by (simp add: encodable_def str_lit_def is_surrogate_def)
  show ?thesis
    using cb enc
      verify_returns_bool [OF cb, of "str_lit ''not base58: 0OIl''" "str_lit ''not hex''" "[]"]
    by simp
qed

text \<open>
  Claim C1 as stated fails: the address \<^verbatim>\<open>'\ud800'\<close> with an empty signature and an empty
  message makes \<^verbatim>\<open>verify\<close> raise, with a library that comes back from every call.
\<close>

theorem verify_raises_on_surrogate:
  "comes_back (lib (loaded (fixed_cdll 1)))
   \<and> verify [0xD800] [] [] (loaded (fixed_cdll 1)) = Raises UnicodeEncodeError (loaded (fixed_cdll 1))"
  by (simp add: comes_back_def loaded_def fixed_cdll_def verify_def verify_args_def
      is_surrogate_def)

text \<open>
  Claim C2, as the code has it. Whenever the native function is called and the message
  holds no null character, the message argument it receives is the opening tag, the
  encoded message and the closing tag: the envelope once, neither absent nor doubled, and
  the result of \<^verbatim>\<open>verify\<close> is decided by the native call on that argument.
\<close>

theorem verifier_receives_wrapped_once:
  assumes "verify_args address signature (wrapped_message message) = Inr (a, s, m)"
    and "0 \<notin> set message"
  shows "\<exists>bm. encode message = Inr bm
           \<and> m = bytes_lit ''<Bytes>'' @ bm @ bytes_lit ''</Bytes>''
           \<and> m \<noteq> bm
           \<and> m \<noteq> bytes_lit ''<Bytes>'' @ (bytes_lit ''<Bytes>'' @ bm @ bytes_lit ''</Bytes>'')
                   @ bytes_lit ''</Bytes>''
           \<and> verify address signature message g =
               (case c_verify_polkadot_signature (lib g) a s m (native g) of
                  None \<Rightarrow> NoReturn
                | Some (result, n') \<Rightarrow> Returns (result = 1) (g\<lparr>native := n'\<rparr>))"
proof -
  from assms(1) obtain bm where bm: "encode message = Inr bm"
    and m: "m = c_char_p (bytes_lit ''<Bytes>'' @ bm @ bytes_lit ''</Bytes>'')"
    using wrapped_arg by blast
  from bm assms(2) have "0 \<notin> set bm"
    by (simp add: encode_null)
  then have "0 \<notin> set (bytes_lit ''<Bytes>'' @ bm @ bytes_lit ''</Bytes>'')"
    using open_tag_no_null close_tag_no_null by simp
  then have "c_char_p (bytes_lit ''<Bytes>'' @ bm @ bytes_lit ''</Bytes>'')
               = bytes_lit ''<Bytes>'' @ bm @ bytes_lit ''</Bytes>''"
    by (rule c_char_p_id)
  with m have "m = bytes_lit ''<Bytes>'' @ bm @ bytes_lit ''</Bytes>''"
    by simp
  with bm verify_called [OF assms(1), of g] wrapped_bytes_neq [of bm] show ?thesis
    by blast
qed

theorem verifier_receives_wrapped_once_witness:
  "verify_args (str_lit ''5Grw'') (str_lit ''0xab'') (wrapped_message (str_lit ''hi''))
     = Inr (bytes_lit ''5Grw'', bytes_lit ''0xab'', bytes_lit ''<Bytes>hi</Bytes>'')
   \<and> 0 \<notin> set (str_lit ''hi'')
   \<and> (\<exists>bm. encode (str_lit ''hi'') = Inr bm
         \<and> bytes_lit ''<Bytes>hi</Bytes>'' = bytes_lit ''<Bytes>'' @ bm @ bytes_lit ''</Bytes>''
         \<and> verify (str_lit ''5Grw'') (str_lit ''0xab'') (str_lit ''hi'') (loaded (fixed_cdll 1))
             = Returns True (loaded (fixed_cdll 1)))"
proof -
  have args: "verify_args (str_lit ''5Grw'') (str_lit ''0xab'') (wrapped_message (str_lit ''hi''))
     = Inr (bytes_lit ''5Grw'', bytes_lit ''0xab'', bytes_lit ''<Bytes>hi</Bytes>'')"
    by (simp add: verify_args_def wrapped_message_def fstring_def str_lit_def bytes_lit_def
        is_surrogate_def utf8_char_def c_char_p_def)
  have nonull: "0 \<notin> set (str_lit ''hi'')"
    by (simp add: str_lit_def)
  show ?thesis
    using args nonull
      verifier_receives_wrapped_once [OF args nonull, of "loaded (fixed_cdll 1)"]
    by (auto simp: loaded_def fixed_cdll_def)
qed

text \<open>
  Claim C2 as stated fails for a message with a null character: for \<^verbatim>\<open>'a\x00b'\<close> the native
  function receives \<^verbatim>\<open><Bytes>a\<close>, which is not the message in its envelope.
\<close>

theorem verifier_receives_truncated_message:
  "verify_args [] [] (wrapped_message [97, 0, 98]) = Inr ([], [], bytes_lit ''<Bytes>a'')
   \<and> encode [97, 0, 98] = Inr [97, 0, 98]
   \<and> bytes_lit ''<Bytes>a'' \<noteq> bytes_lit ''<Bytes>'' @ [97, 0, 98] @ bytes_lit ''</Bytes>''"
  by (simp add: verify_args_def wrapped_message_def fstring_def str_lit_def bytes_lit_def
      is_surrogate_def utf8_char_def c_char_p_def)

text \<open>
  Claim C6. The foreign call that \<^verbatim>\<open>verify\<close> makes is the call of the library's entry
  point on the three byte strings \<open>a\<close>, \<open>s\<close> and \<open>m\<close>, and its result decides what \<^verbatim>\<open>verify\<close>
  returns. Each of the three reaches the native function cut at its first null byte: what
  is received has no null byte, is the whole encoded argument when that has none, and is
  otherwise followed in the passed buffer by a null byte. For a message with a null
  character the passed buffer is what is received, a null byte, the rest of the message
  and the closing tag: the closing tag is not seen.
\<close>

theorem native_sees_up_to_first_null:
  assumes "verify_args address signature (wrapped_message message) = Inr (a, s, m)"
  shows "verify address signature message g =
           (case c_verify_polkadot_signature (lib g) a s m (native g) of
              None \<Rightarrow> NoReturn
            | Some (result, n') \<Rightarrow> Returns (result = 1) (g\<lparr>native := n'\<rparr>))
         \<and> (\<exists>ea es em.
           encode address = Inr ea \<and> encode signature = Inr es \<and> encode message = Inr em
           \<and> 0 \<notin> set a \<and> 0 \<notin> set s \<and> 0 \<notin> set m
           \<and> (if 0 \<in> set ea then \<exists>rest. ea = a @ 0 # rest else a = ea)
           \<and> (if 0 \<in> set es then \<exists>rest. es = s @ 0 # rest else s = es)
           \<and> (if 0 \<in> set em
                then \<exists>rest. bytes_lit ''<Bytes>'' @ em @ bytes_lit ''</Bytes>''
                              = m @ 0 # rest @ bytes_lit ''</Bytes>''
                else m = bytes_lit ''<Bytes>'' @ em @ bytes_lit ''</Bytes>''))"
proof -
  from assms obtain ea es where ea: "encode address = Inr ea"
    and es: "encode signature = Inr es"
    and a: "a = c_char_p ea" and s: "s = c_char_p es"
    by (auto simp: verify_args_Inr)
  from assms obtain em where em: "encode message = Inr em"
    and m: "m = c_char_p (bytes_lit ''<Bytes>'' @ em @ bytes_lit ''</Bytes>'')"
    using wrapped_arg by blast
  have m': "m = bytes_lit ''<Bytes>'' @ c_char_p (em @ bytes_lit ''</Bytes>'')"
    using m open_tag_no_null by (simp add: c_char_p_append)
  have seen_a: "0 \<notin> set a \<and> (if 0 \<in> set ea then \<exists>rest. ea = a @ 0 # rest else a = ea)"
    unfolding a by (rule received_prefix)
  have seen_s: "0 \<notin> set s \<and> (if 0 \<in> set es then \<exists>rest. es = s @ 0 # rest else s = es)"
    unfolding s by (rule received_prefix)
  have no_null: "0 \<notin> set m"
    unfolding m by (rule c_char_p_no_null)
  have seen_m: "if 0 \<in> set em
                then \<exists>rest. bytes_lit ''<Bytes>'' @ em @ bytes_lit ''</Bytes>''
                              = m @ 0 # rest @ bytes_lit ''</Bytes>''
                else m = bytes_lit ''<Bytes>'' @ em @ bytes_lit ''</Bytes>''"
  proof (cases "0 \<in> set em")
    case True
    then obtain rest where "em = c_char_p em @ 0 # rest"
      using c_char_p_split by blast
    then have "bytes_lit ''<Bytes>'' @ em @ bytes_lit ''</Bytes>''
                = (bytes_lit ''<Bytes>'' @ c_char_p em) @ 0 # rest @ bytes_lit ''</Bytes>''"
      by (metis append.assoc append_Cons)
    moreover from True have "m = bytes_lit ''<Bytes>'' @ c_char_p em"
      unfolding m' by (simp add: c_char_p_append)
    ultimately have "\<exists>rest. bytes_lit ''<Bytes>'' @ em @ bytes_lit ''</Bytes>''
                = m @ 0 # rest @ bytes_lit ''</Bytes>''"
      by blast
    with True show ?thesis
      by (simp only: if_True)
  next
    case False
    then have "m = bytes_lit ''<Bytes>'' @ em @ bytes_lit ''</Bytes>''"
      unfolding m' using close_tag_no_null by (simp add: c_char_p_append c_char_p_id)
    with False show ?thesis
      by (simp only: if_False)
  qed
  from ea es em seen_a seen_s no_null seen_m have
    "\<exists>ea es em.
       encode address = Inr ea \<and> encode signature = Inr es \<and> encode message = Inr em
       \<and> 0 \<notin> set a \<and> 0 \<notin> set s \<and> 0 \<notin> set m
       \<and> (if 0 \<in> set ea then \<exists>rest. ea = a @ 0 # rest else a = ea)
       \<and> (if 0 \<in> set es then \<exists>rest. es = s @ 0 # rest else s = es)
       \<and> (if 0 \<in> set em
            then \<exists>rest. bytes_lit ''<Bytes>'' @ em @ bytes_lit ''</Bytes>''
                          = m @ 0 # rest @ bytes_lit ''</Bytes>''
            else m = bytes_lit ''<Bytes>'' @ em @ bytes_lit ''</Bytes>'')"
    by blast
  with verify_called [OF assms, of g] show ?thesis
    by (rule conjI)
qed

text \<open>
  The address \<^verbatim>\<open>'A\x00B'\<close> and the message \<^verbatim>\<open>'a\x00b'\<close>, with the stand-in stages: the
  native function receives \<^verbatim>\<open>A\<close> and \<^verbatim>\<open><Bytes>a\<close>, so the signature \<^verbatim>\<open>A<Bytes>a\<close> counts as
  valid and \<^verbatim>\<open>verify\<close> returns \<^verbatim>\<open>True\<close>.
\<close>

theorem native_sees_up_to_first_null_witness:
  "verify_args [0x41, 0, 0x42] (str_lit ''A<Bytes>a'') (wrapped_message [0x61, 0, 0x62])
     = Inr ([0x41], bytes_lit ''A<Bytes>a'', bytes_lit ''<Bytes>a'')
   \<and> c_verify_polkadot_signature (lib (loaded (spec_cdll toy_stages (bytes_lit ''0.1.0''))))
       [0x41] (bytes_lit ''A<Bytes>a'') (bytes_lit ''<Bytes>a'')
       (native (loaded (spec_cdll toy_stages (bytes_lit ''0.1.0'')))) = Some (1, ())
   \<and> verify [0x41, 0, 0x42] (str_lit ''A<Bytes>a'') [0x61, 0, 0x62]
       (loaded (spec_cdll toy_stages (bytes_lit ''0.1.0'')))
       = Returns True (loaded (spec_cdll toy_stages (bytes_lit ''0.1.0'')))
   \<and> (\<exists>rest. bytes_lit ''<Bytes>'' @ [0x61, 0, 0x62] @ bytes_lit ''</Bytes>''
               = bytes_lit ''<Bytes>a'' @ 0 # rest @ bytes_lit ''</Bytes>'')"
proof -
  have args: "verify_args [0x41, 0, 0x42] (str_lit ''A<Bytes>a'') (wrapped_message [0x61, 0, 0x62])
     = Inr ([0x41], bytes_lit ''A<Bytes>a'', bytes_lit ''<Bytes>a'')"
    by (simp add: verify_args_def wrapped_message_def fstring_def str_lit_def bytes_lit_def
        is_surrogate_def utf8_char_def c_char_p_def)
  have call: "c_verify_polkadot_signature (lib (loaded (spec_cdll toy_stages (bytes_lit ''0.1.0''))))
       [0x41] (bytes_lit ''A<Bytes>a'') (bytes_lit ''<Bytes>a'')
       (native (loaded (spec_cdll toy_stages (bytes_lit ''0.1.0'')))) = Some (1, ())"
    by (simp add: loaded_def spec_cdll_def spec_verify_polkadot_signature_def spec_pipeline_def
        toy_stages_def bytes_lit_def)
  have enc: "encode [0x61, 0, 0x62] = Inr [0x61, 0, 0x62]"
    by (simp add: is_surrogate_def utf8_char_def)
  note inst = native_sees_up_to_first_null
    [OF args, where g = "loaded (spec_cdll toy_stages (bytes_lit ''0.1.0''))"]
  from inst call have run: "verify [0x41, 0, 0x42] (str_lit ''A<Bytes>a'') [0x61, 0, 0x62]
       (loaded (spec_cdll toy_stages (bytes_lit ''0.1.0'')))
       = Returns True (loaded (spec_cdll toy_stages (bytes_lit ''0.1.0'')))"
    by (simp add: loaded_def)
  from inst obtain em where
    em: "encode [0x61, 0, 0x62] = Inr em" and
    seen: "if 0 \<in> set em
           then \<exists>rest. bytes_lit ''<Bytes>'' @ em @ bytes_lit ''</Bytes>''
                         = bytes_lit ''<Bytes>a'' @ 0 # rest @ bytes_lit ''</Bytes>''
           else bytes_lit ''<Bytes>a'' = bytes_lit ''<Bytes>'' @ em @ bytes_lit ''</Bytes>''"
    by blast
  from em enc have "em = [0x61, 0, 0x62]"
    by (simp del: encode.simps)
  with seen have "\<exists>rest. bytes_lit ''<Bytes>'' @ [0x61, 0, 0x62] @ bytes_lit ''</Bytes>''
               = bytes_lit ''<Bytes>a'' @ 0 # rest @ bytes_lit ''</Bytes>''"
    by simp
  with args call run show ?thesis
    by blast
qed

subsection \<open>Semantic versions and ASCII\<close>

lemma split_on_chars:
  "x \<in> set cs \<Longrightarrow> x = d \<or> (\<exists>p \<in> set (split_on d cs). x \<in> set p)"
  by (induction cs) (auto split: list.splits)

lemma fields_chars:
  assumes "list_all P (split_on 46 cs)" and "\<And>i. P i \<Longrightarrow> list_all is_ident_char i"
  shows "list_all semver_char cs"
proof -
  have "semver_char x" if "x \<in> set cs" for x
  proof -
    from that consider "x = 46" | p where "p \<in> set (split_on 46 cs)" "x \<in> set p"
      using split_on_chars [of x cs 46] by blast
    then show ?thesis
    proof cases
      case 1
      then show ?thesis by (simp add: semver_char_def)
    next
      case 2
      with assms(1) have "P p"
        by (simp add: list_all_iff)
      then have "list_all is_ident_char p"
        by (rule assms(2))
      with 2 show ?thesis
        by (simp add: list_all_iff semver_char_def)
    qed
  qed
  then show ?thesis
    by (simp add: list_all_iff)
qed

lemma digit_ident: "list_all is_digit i \<Longrightarrow> list_all is_ident_char i"
  by (simp add: list_all_iff is_ident_char_def)

lemma core_chars:
  assumes "case split_on 46 core of
             [major, minor, patch] \<Rightarrow>
               numeric_identifier major \<and> numeric_identifier minor \<and> numeric_identifier patch
           | _ \<Rightarrow> False"
  shows "list_all semver_char core"
proof -
  from assms have "list_all numeric_identifier (split_on 46 core)"
    by (auto split: list.splits)
  then show ?thesis
    by (rule fields_chars) (simp add: numeric_identifier_def digit_ident)
qed

lemma tail_chars:
  assumes "if t = [] then True else list_all P (split_on 46 (tl t))"
    and "t = dropWhile (\<lambda>c. c \<noteq> d) cs" and "d = 45 \<or> d = 43"
    and "\<And>i. P i \<Longrightarrow> list_all is_ident_char i"
  shows "list_all semver_char t"
proof (cases t)
  case Nil
  then show ?thesis by simp
next
  case (Cons x r)
  with assms(2) have "x = d"
    using hd_dropWhile [of "\<lambda>c. c \<noteq> d" cs] by (metis list.sel(1) list.distinct(1))
  with assms(3) have "semver_char x"
    by (auto simp: semver_char_def is_ident_char_def)
  moreover from Cons assms(1) have "list_all P (split_on 46 r)"
    by simp
  then have "list_all semver_char r"
    using assms(4) by (rule fields_chars)
  ultimately show ?thesis
    using Cons by simp
qed

lemma is_semver_chars:
  assumes "is_semver v"
  shows "list_all semver_char v"
proof -
  define core_pre where "core_pre = takeWhile (\<lambda>c. c \<noteq> 43) v"
  define build where "build = dropWhile (\<lambda>c. c \<noteq> 43) v"
  define core where "core = takeWhile (\<lambda>c. c \<noteq> 45) core_pre"
  define pre where "pre = dropWhile (\<lambda>c. c \<noteq> 45) core_pre"
  have v: "v = (core @ pre) @ build"
    by (simp add: core_pre_def build_def core_def pre_def)
  from assms have c: "case split_on 46 core of
             [major, minor, patch] \<Rightarrow>
               numeric_identifier major \<and> numeric_identifier minor \<and> numeric_identifier patch
           | _ \<Rightarrow> False"
    and p: "if pre = [] then True else list_all prerelease_identifier (split_on 46 (tl pre))"
    and b: "if build = [] then True else list_all build_identifier (split_on 46 (tl build))"
    unfolding is_semver_def Let_def core_pre_def build_def core_def pre_def by simp_all
  have "list_all semver_char core"
    using c by (rule core_chars)
  moreover have "list_all semver_char pre"
    using p pre_def by (rule tail_chars) (simp_all add: prerelease_identifier_def)
  moreover have "list_all semver_char build"
    using b build_def by (rule tail_chars) (simp_all add: build_identifier_def)
  ultimately show ?thesis
    by (subst v) simp
qed

lemma semver_char_ascii: "semver_char c \<Longrightarrow> 0 < c \<and> c < 128"
  by (auto simp: semver_char_def is_ident_char_def is_digit_def)

lemma decode_ascii: "list_all (\<lambda>b. b < 0x80) bs \<Longrightarrow> decode bs = Inr (map unat bs)"
  by (induction bs) auto

lemma semver_bytes:
  fixes version :: bytes
  assumes "is_semver (map unat version)"
  shows "0 \<notin> set version" and "list_all (\<lambda>b. b < 0x80) version"
proof -
  have *: "0 < unat b \<and> unat b < 128" if "b \<in> set version" for b
    using is_semver_chars [OF assms] that semver_char_ascii
    by (auto simp: list_all_iff)
  show "0 \<notin> set version"
    using * by fastforce
  show "list_all (\<lambda>b. b < 0x80) version"
    using * by (auto simp: list_all_iff word_less_nat_alt)
qed

lemma get_version_of_spec_library:
  assumes "lib g = spec_cdll st version" and "is_semver (map unat version)"
  shows "get_version g = Returns (map unat version) g"
proof -
  have "c_char_p (version @ [0]) = version"
    using semver_bytes(1) [OF assms(2)] by (simp add: c_char_p_append) (simp add: c_char_p_def)
  moreover have "decode version = Inr (map unat version)"
    using semver_bytes(2) [OF assms(2)] by (rule decode_ascii)
  ultimately show ?thesis
    using assms(1) by (simp add: get_version_def spec_cdll_def)
qed

subsection \<open>Runs with the stand-in libraries\<close>

lemma toy_args:
  "verify_args (str_lit ''A'') (str_lit ''A<Bytes>hi</Bytes>'') (wrapped_message (str_lit ''hi''))
     = Inr (bytes_lit ''A'', bytes_lit ''A<Bytes>hi</Bytes>'', bytes_lit ''<Bytes>hi</Bytes>'')"
  by (simp add: verify_args_def wrapped_message_def fstring_def str_lit_def bytes_lit_def
      is_surrogate_def utf8_char_def c_char_p_def)

lemma toy_valid:
  "spec_pipeline toy_stages (bytes_lit ''A'') (bytes_lit ''A<Bytes>hi</Bytes>'')
     (bytes_lit ''<Bytes>hi</Bytes>'') = Inr True"
  by (simp add: spec_pipeline_def toy_stages_def bytes_lit_def)

lemma toy_call:
  "c_verify_polkadot_signature (lib (loaded (spec_cdll toy_stages v)))
     (bytes_lit ''A'') (bytes_lit ''A<Bytes>hi</Bytes>'') (bytes_lit ''<Bytes>hi</Bytes>'')
     (native (loaded (spec_cdll toy_stages v))) = Some (1, ())"
  by (simp add: loaded_def spec_cdll_def spec_verify_polkadot_signature_def toy_valid)

lemma loaded_native: "(loaded L)\<lparr>native := ()\<rparr> = loaded L"
  by (simp add: loaded_def)

lemma spec_cdll_stateless: "stateless (spec_cdll st v)"
  by (simp add: stateless_def spec_cdll_def)

lemma toy_verify:
  "verify (str_lit ''A'') (str_lit ''A<Bytes>hi</Bytes>'') (str_lit ''hi'')
     (loaded (spec_cdll toy_stages v)) = Returns True (loaded (spec_cdll toy_stages v))"
  using verify_called [OF toy_args, of "loaded (spec_cdll toy_stages v)"] toy_call [of v]
  by (simp add: loaded_native)

lemma fixed_args:
  "verify_args (str_lit ''5Grw'') (str_lit ''0xab'') (wrapped_message (str_lit ''hi''))
     = Inr (bytes_lit ''5Grw'', bytes_lit ''0xab'', bytes_lit ''<Bytes>hi</Bytes>'')"
  by (simp add: verify_args_def wrapped_message_def fstring_def str_lit_def bytes_lit_def
      is_surrogate_def utf8_char_def c_char_p_def)

text \<open>
  Claim C3. The native entry point, as the specification describes it, returns 1 when
  the stages succeed and the signature verifies, and 0 when a stage fails or the
  signature does not verify. Whatever library is loaded, when its call returns the byte
  \<open>r\<close> then \<^verbatim>\<open>verify\<close> returns \<^verbatim>\<open>True\<close> if \<open>r\<close> is 1 and \<^verbatim>\<open>False\<close> otherwise.
\<close>

theorem facade_true_iff_native_one:
  "spec_verify_polkadot_signature st a s m = (if spec_pipeline st a s m = Inr True then 1 else 0)
   \<and> (verify_args address signature (wrapped_message message) = Inr (a, s, m)
        \<longrightarrow> c_verify_polkadot_signature (lib g) a s m (native g) = Some (r, n')
        \<longrightarrow> verify address signature message g = Returns (r = 1) (g\<lparr>native := n'\<rparr>))"
  by (auto simp: spec_verify_polkadot_signature_def verify_def split: sum.splits)

text \<open>Under the stand-in stages the signature \<^verbatim>\<open>A<Bytes>hi</Bytes>\<close> of \<^verbatim>\<open>hi\<close> by \<^verbatim>\<open>A\<close> is valid.\<close>

theorem facade_true_iff_native_one_witness:
  "spec_verify_polkadot_signature toy_stages (bytes_lit ''A'') (bytes_lit ''A<Bytes>hi</Bytes>'')
     (bytes_lit ''<Bytes>hi</Bytes>'') = 1
   \<and> verify_args (str_lit ''A'') (str_lit ''A<Bytes>hi</Bytes>'') (wrapped_message (str_lit ''hi''))
       = Inr (bytes_lit ''A'', bytes_lit ''A<Bytes>hi</Bytes>'', bytes_lit ''<Bytes>hi</Bytes>'')
   \<and> c_verify_polkadot_signature (lib (loaded (spec_cdll toy_stages (bytes_lit ''0.1.0''))))
       (bytes_lit ''A'') (bytes_lit ''A<Bytes>hi</Bytes>'') (bytes_lit ''<Bytes>hi</Bytes>'')
       (native (loaded (spec_cdll toy_stages (bytes_lit ''0.1.0'')))) = Some (1, ())
   \<and> verify (str_lit ''A'') (str_lit ''A<Bytes>hi</Bytes>'') (str_lit ''hi'')
       (loaded (spec_cdll toy_stages (bytes_lit ''0.1.0'')))
       = Returns True (loaded (spec_cdll toy_stages (bytes_lit ''0.1.0'')))"
  using facade_true_iff_native_one
    [of toy_stages "bytes_lit ''A''" "bytes_lit ''A<Bytes>hi</Bytes>''"
        "bytes_lit ''<Bytes>hi</Bytes>''" "str_lit ''A''" "str_lit ''A<Bytes>hi</Bytes>''"
        "str_lit ''hi''" "loaded (spec_cdll toy_stages (bytes_lit ''0.1.0''))" 1 "()"]
    toy_args toy_valid toy_call [of "bytes_lit ''0.1.0''"]
  by (simp add: loaded_native)

text \<open>
  Claim C10. When the foreign call returns a byte other than 1 (0, or any of 2 to 255),
  \<^verbatim>\<open>verify\<close> returns \<^verbatim>\<open>False\<close>: it neither returns \<^verbatim>\<open>True\<close> nor raises.
\<close>

theorem native_not_one_gives_False:
  assumes "verify_args address signature (wrapped_message message) = Inr (a, s, m)"
    and "c_verify_polkadot_signature (lib g) a s m (native g) = Some (r, n')"
    and "r \<noteq> 1"
  shows "verify address signature message g = Returns False (g\<lparr>native := n'\<rparr>)"
  using assms by (simp add: verify_def)

text \<open>A library that returns 2.\<close>

theorem native_not_one_gives_False_witness:
  "verify_args (str_lit ''5Grw'') (str_lit ''0xab'') (wrapped_message (str_lit ''hi''))
     = Inr (bytes_lit ''5Grw'', bytes_lit ''0xab'', bytes_lit ''<Bytes>hi</Bytes>'')
   \<and> c_verify_polkadot_signature (lib (loaded (fixed_cdll 2)))
       (bytes_lit ''5Grw'') (bytes_lit ''0xab'') (bytes_lit ''<Bytes>hi</Bytes>'')
       (native (loaded (fixed_cdll 2))) = Some (2, ())
   \<and> (2 :: byte) \<noteq> 1
   \<and> verify (str_lit ''5Grw'') (str_lit ''0xab'') (str_lit ''hi'') (loaded (fixed_cdll 2))
       = Returns False (loaded (fixed_cdll 2))"
proof -
  have call: "c_verify_polkadot_signature (lib (loaded (fixed_cdll 2)))
       (bytes_lit ''5Grw'') (bytes_lit ''0xab'') (bytes_lit ''<Bytes>hi</Bytes>'')
       (native (loaded (fixed_cdll 2))) = Some (2, ())"
    by (simp add: loaded_def fixed_cdll_def)
  have two: "(2 :: byte) \<noteq> 1"
    by simp
  show ?thesis
    using fixed_args call two native_not_one_gives_False [OF fixed_args call two]
    by (simp add: loaded_native)
qed

text \<open>
  Claim C5. With a library that keeps no state, a call of \<^verbatim>\<open>verify\<close> that returns a
  boolean, repeated with the same three strings in the state the first call left, returns
  the same boolean; and a call that raises, repeated, raises the same exception.
\<close>

theorem verify_deterministic:
  assumes "stateless (lib g)"
  shows "(verify address signature message g = Returns b g'
            \<longrightarrow> verify address signature message g' = Returns b g')
         \<and> (verify address signature message g = Raises e g'
            \<longrightarrow> verify address signature message g' = Raises e g')"
  using verify_state [OF assms, of address signature message] by metis

theorem verify_deterministic_witness:
  "stateless (lib (loaded (spec_cdll toy_stages (bytes_lit ''0.1.0''))))
   \<and> verify (str_lit ''A'') (str_lit ''A<Bytes>hi</Bytes>'') (str_lit ''hi'')
       (loaded (spec_cdll toy_stages (bytes_lit ''0.1.0'')))
       = Returns True (loaded (spec_cdll toy_stages (bytes_lit ''0.1.0'')))"
proof -
  have st: "stateless (lib (loaded (spec_cdll toy_stages (bytes_lit ''0.1.0''))))"
    by (simp add: loaded_def spec_cdll_stateless)
  show ?thesis
    using st toy_verify [of "bytes_lit ''0.1.0''"]
      verify_deterministic [OF st, of "str_lit ''A''" "str_lit ''A<Bytes>hi</Bytes>''"
        "str_lit ''hi''" True "loaded (spec_cdll toy_stages (bytes_lit ''0.1.0''))"
        UnicodeEncodeError]
    by simp
qed

text \<open>
  Claim C8. A call of \<^verbatim>\<open>verify\<close> that comes back leaves the module's globals as they were;
  with a library that keeps no state it leaves the whole state as it was, so that any
  later call, with any three strings, behaves as if the first had never been made:
  nothing of the first call (the wrapped message included) is kept.
\<close>

theorem verify_frame:
  assumes "verify address signature message g = Returns b g'
           \<or> verify address signature message g = Raises e g'"
  shows "lib_path g' = lib_path g \<and> lib g' = lib g
         \<and> (stateless (lib g)
              \<longrightarrow> g' = g \<and> verify address2 signature2 message2 g'
                               = verify address2 signature2 message2 g)"
proof -
  have "lib_path g' = lib_path g \<and> lib g' = lib g"
    using assms by (auto simp: verify_def split: sum.splits option.splits prod.splits)
  moreover have "g' = g" if "stateless (lib g)"
    using verify_state [OF that assms] .
  ultimately show ?thesis
    by simp
qed

theorem verify_frame_witness:
  "verify (str_lit ''A'') (str_lit ''A<Bytes>hi</Bytes>'') (str_lit ''hi'')
       (loaded (spec_cdll toy_stages (bytes_lit ''0.1.0'')))
       = Returns True (loaded (spec_cdll toy_stages (bytes_lit ''0.1.0'')))
   \<and> stateless (lib (loaded (spec_cdll toy_stages (bytes_lit ''0.1.0''))))"
proof -
  have st: "stateless (lib (loaded (spec_cdll toy_stages (bytes_lit ''0.1.0''))))"
    by (simp add: loaded_def spec_cdll_stateless)
  have "verify (str_lit ''A'') (str_lit ''A<Bytes>hi</Bytes>'') (str_lit ''hi'')
       (loaded (spec_cdll toy_stages (bytes_lit ''0.1.0'')))
       = Returns True (loaded (spec_cdll toy_stages (bytes_lit ''0.1.0'')))
     \<or> verify (str_lit ''A'') (str_lit ''A<Bytes>hi</Bytes>'') (str_lit ''hi'')
       (loaded (spec_cdll toy_stages (bytes_lit ''0.1.0'')))
       = Raises UnicodeEncodeError (loaded (spec_cdll toy_stages (bytes_lit ''0.1.0'')))"
    using toy_verify [of "bytes_lit ''0.1.0''"] by simp
  from verify_frame [OF this, of "[0xD800]" "[]" "[]"] st toy_verify [of "bytes_lit ''0.1.0''"]
  show ?thesis
    by simp
qed

text \<open>
  Claim C7. With the library as the specification describes it, whose static string is a
  semantic version, \<^verbatim>\<open>get_version\<close> takes nothing but the module, raises nothing, and
  returns that string, leaving the state as it was: every call returns the same string,
  also after a call of \<^verbatim>\<open>verify\<close>.
\<close>

theorem get_version_static:
  assumes "lib g = spec_cdll st version" and "is_semver (map unat version)"
  shows "get_version g = Returns (map unat version) g
         \<and> (verify address signature message g = Returns b g'
              \<longrightarrow> get_version g' = Returns (map unat version) g')"
proof -
  have "get_version g = Returns (map unat version) g"
    using assms by (rule get_version_of_spec_library)
  moreover have "get_version g' = Returns (map unat version) g'"
    if "verify address signature message g = Returns b g'"
  proof -
    from that have "lib g' = lib g"
      by (auto simp: verify_def split: sum.splits option.splits prod.splits)
    with assms show ?thesis
      by (simp add: get_version_of_spec_library)
  qed
  ultimately show ?thesis
    by simp
qed

theorem get_version_static_witness:
  "lib (loaded (spec_cdll toy_stages (bytes_lit ''0.1.0''))) = spec_cdll toy_stages (bytes_lit ''0.1.0'')
   \<and> is_semver (map unat (bytes_lit ''0.1.0''))
   \<and> map unat (bytes_lit ''0.1.0'') = str_lit ''0.1.0''
   \<and> get_version (loaded (spec_cdll toy_stages (bytes_lit ''0.1.0'')))
       = Returns (str_lit ''0.1.0'') (loaded (spec_cdll toy_stages (bytes_lit ''0.1.0'')))"
proof -
  have l: "lib (loaded (spec_cdll toy_stages (bytes_lit ''0.1.0'')))
             = spec_cdll toy_stages (bytes_lit ''0.1.0'')"
    by (simp add: loaded_def)
  have v: "is_semver (map unat (bytes_lit ''0.1.0''))"
    by (simp add: is_semver_def bytes_lit_def numeric_identifier_def is_digit_def)
  have e: "map unat (bytes_lit ''0.1.0'') = str_lit ''0.1.0''"
    by (simp add: bytes_lit_def str_lit_def)
  show ?thesis
    using l v e get_version_static [OF l v]
    by simp
qed

end
